theory Spec2Isabelle
  imports Complex_Main
begin

section \<open>Edge-triggered auto-scroll during drag (useAutoScroll.ts)\<close>

text \<open>
  A shallow embedding of \<^verbatim>\<open>src/components/useAutoScroll.ts\<close>: the hook
  \<^verbatim>\<open>useAutoScroll\<close> with its effect, its cleanup, the frame callback \<^verbatim>\<open>tick\<close> and
  \<^verbatim>\<open>updatePointerY\<close>, and the resolver \<^verbatim>\<open>findScrollableAncestor\<close>.

  JavaScript numbers are idealised as \<^typ>\<open>real\<close>: rounding, \<^verbatim>\<open>NaN\<close> and the infinities of
  IEEE doubles are not modelled. Platform objects (document, window, the animation-frame
  queue, the event listeners of the window) are fields of one state record; a write to
  \<^verbatim>\<open>scrollTop\<close> is a plain store, as the source writes it.
\<close>

subsection \<open>Elements and the state\<close>

text \<open>
  An \<^verbatim>\<open>HTMLElement\<close> carries its identity and its \<^verbatim>\<open>parentElement\<close>
  (\<^verbatim>\<open>HTMLElement | null\<close>). The ancestors of an element of a document tree are finitely many,
  which the datatype expresses. \<^verbatim>\<open>===\<close> on elements is equality of these values.
\<close>

datatype element = Element (ident: nat) (parentElement: "element option")

record state =
  \<comment> \<open>the refs of the hook\<close>
  speedRef :: real
  rafRef :: "nat option"
  containerRef :: "element option"
  onScrollRef :: "nat option"
  \<comment> \<open>the cleanup returned by the last run of the effect: it holds its \<^verbatim>\<open>blockWheel\<close> listener\<close>
  cleanupFn :: "nat option"
  \<comment> \<open>\<^verbatim>\<open>document\<close>\<close>
  body :: element
  documentElement :: element
  scrollingElement :: "element option"
  contentElement :: "element option"  \<comment> \<open>\<^verbatim>\<open>document.getElementById('content')\<close>\<close>
  \<comment> \<open>computed style and layout\<close>
  overflowY :: "element \<Rightarrow> string"
  scrollHeight :: "element \<Rightarrow> real"
  clientHeight :: "element \<Rightarrow> real"
  rectTop :: "element \<Rightarrow> real"     \<comment> \<open>\<^verbatim>\<open>getBoundingClientRect().top\<close>\<close>
  rectBottom :: "element \<Rightarrow> real"  \<comment> \<open>\<^verbatim>\<open>getBoundingClientRect().bottom\<close>\<close>
  innerHeight :: real               \<comment> \<open>\<^verbatim>\<open>window.innerHeight\<close>\<close>
  scrollTop :: "element \<Rightarrow> real"
  \<comment> \<open>pending \<^verbatim>\<open>requestAnimationFrame\<close> handles and the next handle to hand out\<close>
  frames :: "nat set"
  nextHandle :: nat
  \<comment> \<open>the wheel listeners installed on the window, and the next listener identity\<close>
  wheelListeners :: "nat set"
  nextListener :: nat
  \<comment> \<open>the calls made to observer callbacks: which callback, with which argument\<close>
  onScrollCalls :: "(nat \<times> real) list"

subsection \<open>findScrollableAncestor\<close>

definition isDocRoot :: "state \<Rightarrow> element \<Rightarrow> bool" where
  "isDocRoot s e = (e = body s \<or> e = documentElement s)"

definition scrollableY :: "state \<Rightarrow> element \<Rightarrow> bool" where
  "scrollableY s e =
     ((overflowY s e = ''auto'' \<or> overflowY s e = ''scroll'') \<and> scrollHeight s e > clientHeight s e)"

fun findScrollableAncestor :: "state \<Rightarrow> element option \<Rightarrow> element option" where
  "findScrollableAncestor s None = (case scrollingElement s of Some se \<Rightarrow> Some se | None \<Rightarrow> None)"
| "findScrollableAncestor s (Some (Element i p)) =
     (let current = Element i p in
      if current = body s \<or> current = documentElement s
      then (case scrollingElement s of Some se \<Rightarrow> Some se | None \<Rightarrow> Some current)
      else if (overflowY s current = ''auto'' \<or> overflowY s current = ''scroll'')
              \<and> scrollHeight s current > clientHeight s current
      then Some current
      else findScrollableAncestor s p)"

subsection \<open>updatePointerY\<close>

definition updatePointerY :: "real \<Rightarrow> state \<Rightarrow> state" where
  "updatePointerY clientY s =
     (case containerRef s of
        None \<Rightarrow> s
      | Some el \<Rightarrow>
          (let threshold = 100;
               maxSpeed = 15;
               isDocScroller = (el = body s \<or> el = documentElement s);
               top = (if isDocScroller then 0 else rectTop s el);
               bottom = (if isDocScroller then innerHeight s else rectBottom s el);
               distFromTop = clientY - top;
               distFromBottom = bottom - clientY
           in if distFromTop < threshold
              then (let ratio = 1 - distFromTop / threshold
                    in s\<lparr>speedRef := - maxSpeed * ratio * ratio\<rparr>)
              else if distFromBottom < threshold
              then (let ratio = 1 - distFromBottom / threshold
                    in s\<lparr>speedRef := maxSpeed * ratio * ratio\<rparr>)
              else s\<lparr>speedRef := 0\<rparr>))"

text \<open>The visible bounds of a scroll target, as \<^const>\<open>updatePointerY\<close> computes them.\<close>

definition visibleTop :: "state \<Rightarrow> element \<Rightarrow> real" where
  "visibleTop s el = (if el = body s \<or> el = documentElement s then 0 else rectTop s el)"

definition visibleBottom :: "state \<Rightarrow> element \<Rightarrow> real" where
  "visibleBottom s el =
     (if el = body s \<or> el = documentElement s then innerHeight s else rectBottom s el)"

subsection \<open>The frame queue, the effect and its cleanup\<close>

definition requestAnimationFrame :: "state \<Rightarrow> nat \<times> state" where
  "requestAnimationFrame s =
     (nextHandle s, s\<lparr>frames := insert (nextHandle s) (frames s), nextHandle := Suc (nextHandle s)\<rparr>)"

definition cancelAnimationFrame :: "nat \<Rightarrow> state \<Rightarrow> state" where
  "cancelAnimationFrame h s = s\<lparr>frames := frames s - {h}\<rparr>"

definition tick :: "state \<Rightarrow> state" where
  "tick s =
     (let s1 = (case containerRef s of
                  Some el \<Rightarrow>
                    if speedRef s \<noteq> 0
                    then (let s' = s\<lparr>scrollTop := (scrollTop s)(el := scrollTop s el + speedRef s)\<rparr>
                          in case onScrollRef s' of
                               Some f \<Rightarrow> s'\<lparr>onScrollCalls := onScrollCalls s' @ [(f, scrollTop s' el)]\<rparr>
                             | None \<Rightarrow> s')
                    else s
                | None \<Rightarrow> s);
          (h, s2) = requestAnimationFrame s1
      in s2\<lparr>rafRef := Some h\<rparr>)"

text \<open>The browser runs a pending frame callback: the handle leaves the queue, \<^const>\<open>tick\<close> runs.\<close>

definition fireFrame :: "nat \<Rightarrow> state \<Rightarrow> state" where
  "fireFrame h s = (if h \<in> frames s then tick (s\<lparr>frames := frames s - {h}\<rparr>) else s)"

text \<open>The cleanup closure returned by the effect (lines 49 to 55), for the listener it captured.\<close>

definition cleanupBody :: "nat \<Rightarrow> state \<Rightarrow> state" where
  "cleanupBody blockWheel s =
     (let s1 = (case rafRef s of
                  Some h \<Rightarrow> (cancelAnimationFrame h s)\<lparr>rafRef := None\<rparr>
                | None \<Rightarrow> s)
      in s1\<lparr>wheelListeners := wheelListeners s1 - {blockWheel}\<rparr>)"

text \<open>The body of the effect (lines 22 to 55); it records the cleanup it returns, if any.\<close>

definition effect :: "bool \<Rightarrow> state \<Rightarrow> state" where
  "effect isDragging s =
     (if \<not> isDragging
      then (let s1 = (case rafRef s of
                        Some h \<Rightarrow> (cancelAnimationFrame h s)\<lparr>rafRef := None\<rparr>
                      | None \<Rightarrow> s)
            in s1\<lparr>speedRef := 0, containerRef := None, cleanupFn := None\<rparr>)
      else (case findScrollableAncestor s (contentElement s) of
              None \<Rightarrow> s\<lparr>cleanupFn := None\<rparr>
            | Some el \<Rightarrow>
                (let s1 = s\<lparr>containerRef := Some el\<rparr>;
                     (h, s2) = requestAnimationFrame s1;
                     s3 = s2\<lparr>rafRef := Some h\<rparr>;
                     blockWheel = nextListener s3;
                     s4 = s3\<lparr>wheelListeners := insert blockWheel (wheelListeners s3),
                             nextListener := Suc blockWheel\<rparr>
                 in s4\<lparr>cleanupFn := Some blockWheel\<rparr>)))"

text \<open>Running the pending cleanup, as React does before the effect runs again and at unmount.\<close>

definition runCleanup :: "state \<Rightarrow> state" where
  "runCleanup s =
     (case cleanupFn s of
        Some blockWheel \<Rightarrow> (cleanupBody blockWheel s)\<lparr>cleanupFn := None\<rparr>
      | None \<Rightarrow> s)"

text \<open>A change of the dependency \<^verbatim>\<open>isDragging\<close>: the old cleanup, then the effect.\<close>

definition onDragStateChange :: "bool \<Rightarrow> state \<Rightarrow> state" where
  "onDragStateChange isDragging s = effect isDragging (runCleanup s)"

definition unmount :: "state \<Rightarrow> state" where
  "unmount s = runCleanup s"

subsection \<open>Sequences of operations\<close>

datatype event =
    DragState bool     \<comment> \<open>\<^verbatim>\<open>isDragging\<close> changes to the given value\<close>
  | Observer "nat option" \<comment> \<open>a render stores the current \<^verbatim>\<open>onScroll\<close> in \<^verbatim>\<open>onScrollRef\<close>\<close>
  | PointerY real      \<comment> \<open>\<^verbatim>\<open>updatePointerY(clientY)\<close>\<close>
  | Frame nat          \<comment> \<open>the browser runs the frame callback with this handle\<close>
  | Unmount

fun step :: "state \<Rightarrow> event \<Rightarrow> state" where
  "step s (DragState b) = onDragStateChange b s"
| "step s (Observer f) = s\<lparr>onScrollRef := f\<rparr>"
| "step s (PointerY y) = updatePointerY y s"
| "step s (Frame h) = fireFrame h s"
| "step s Unmount = unmount s"

definition run :: "state \<Rightarrow> event list \<Rightarrow> state" where
  "run s evs = foldl step s evs"

text \<open>The state of a freshly mounted hook (lines 14 to 18) on a given page.\<close>

definition mounted :: "state \<Rightarrow> bool" where
  "mounted s =
     (speedRef s = 0 \<and> rafRef s = None \<and> containerRef s = None \<and> cleanupFn s = None
      \<and> frames s = {} \<and> wheelListeners s = {})"

subsection \<open>Notions used to state the properties\<close>

text \<open>The element a walk starts from, followed by its ancestors, nearest first.\<close>

fun ancestorChain :: "element option \<Rightarrow> element list" where
  "ancestorChain None = []"
| "ancestorChain (Some (Element i p)) = Element i p # ancestorChain p"

text \<open>
  Every pending frame is the one \<^const>\<open>rafRef\<close> names, every installed wheel listener is
  the one the pending cleanup will remove, and a frame is only pending while a cleanup is.
\<close>

definition tracked :: "state \<Rightarrow> bool" where
  "tracked s =
     (frames s \<subseteq> set_option (rafRef s) \<and> wheelListeners s \<subseteq> set_option (cleanupFn s)
      \<and> (cleanupFn s = None \<longrightarrow> rafRef s = None))"

text \<open>The hook between two drags: after the effect ran with \<^verbatim>\<open>isDragging\<close> false, or after mount.\<close>

definition idle :: "state \<Rightarrow> bool" where
  "idle s = (rafRef s = None \<and> containerRef s = None \<and> cleanupFn s = None)"

text \<open>A pointer report that lies within the visible bounds of the scroll target, if there is one.\<close>

fun pointerWithin :: "state \<Rightarrow> event \<Rightarrow> bool" where
  "pointerWithin s (PointerY y) =
     (case containerRef s of
        None \<Rightarrow> True
      | Some el \<Rightarrow> visibleTop s el \<le> y \<and> y \<le> visibleBottom s el)"
| "pointerWithin s _ = True"

fun pointersWithin :: "state \<Rightarrow> event list \<Rightarrow> bool" where
  "pointersWithin s [] = True"
| "pointersWithin s (e # es) = (pointerWithin s e \<and> pointersWithin (step s e) es)"

subsection \<open>Example pages\<close>

text \<open>
  A standards-mode page: \<^verbatim>\<open>html > body > list > item\<close>, where the list is a scroll
  container shown between y = 100 and y = 700 and the item is the content root. The detached
  elements belong to no document.
\<close>

definition html0 :: element where "html0 = Element 0 None"
definition body0 :: element where "body0 = Element 1 (Some html0)"
definition list0 :: element where "list0 = Element 2 (Some body0)"
definition item0 :: element where "item0 = Element 3 (Some list0)"
definition detached0 :: element where "detached0 = Element 8 None"
definition detached1 :: element where "detached1 = Element 9 (Some detached0)"

definition page0 :: state where
  "page0 =
     \<lparr>speedRef = 0, rafRef = None, containerRef = None, onScrollRef = Some 7,
      cleanupFn = None,
      body = body0, documentElement = html0, scrollingElement = Some html0,
      contentElement = Some item0,
      overflowY = (\<lambda>e. if e = list0 then ''auto'' else ''visible''),
      scrollHeight = (\<lambda>e. if e = list0 then 2000 else 600),
      clientHeight = (\<lambda>e. 600),
      rectTop = (\<lambda>e. if e = list0 then 100 else 0),
      rectBottom = (\<lambda>e. if e = list0 then 700 else 800),
      innerHeight = 800,
      scrollTop = (\<lambda>e. 300),
      frames = {}, nextHandle = 1,
      wheelListeners = {}, nextListener = 0,
      onScrollCalls = []\<rparr>"

text \<open>The same page with nothing scrollable and no scrolling element.\<close>

definition pageFlat :: state where
  "pageFlat = page0\<lparr>scrollingElement := None, overflowY := (\<lambda>e. ''visible'')\<rparr>"

text \<open>A quirks-mode page whose body scrolls: such a document has no scrolling element.\<close>

definition pageQuirks :: state where
  "pageQuirks =
     page0\<lparr>scrollingElement := None,
           overflowY := (\<lambda>e. if e = body0 then ''auto'' else ''visible''),
           scrollHeight := (\<lambda>e. if e = body0 then 3000 else 600)\<rparr>"

text \<open>The page with nothing scrollable, in standards mode.\<close>

definition pageVisible :: state where
  "pageVisible = page0\<lparr>overflowY := (\<lambda>e. ''visible'')\<rparr>"

text \<open>The content root is detached from the document, which has no scrolling element.\<close>

definition pageDetached :: state where
  "pageDetached = page0\<lparr>scrollingElement := None, contentElement := Some detached1\<rparr>"

text \<open>The state of \<^const>\<open>page0\<close> once a drag has started.\<close>

definition dragging0 :: state where
  "dragging0 =
     page0\<lparr>containerRef := Some list0, rafRef := Some 1, cleanupFn := Some 0,
           frames := {1}, nextHandle := 2, wheelListeners := {0}, nextListener := 1\<rparr>"

text \<open>The same drag over a list only 150 pixels high.\<close>

definition draggingSmall :: state where
  "draggingSmall = dragging0\<lparr>rectBottom := (\<lambda>e. 250)\<rparr>"

section \<open>Auxiliary facts\<close>

lemmas eval_defs =
  run_def onDragStateChange_def unmount_def runCleanup_def cleanupBody_def effect_def
  requestAnimationFrame_def cancelAnimationFrame_def fireFrame_def tick_def updatePointerY_def
  visibleTop_def visibleBottom_def isDocRoot_def scrollableY_def Let_def
  page0_def dragging0_def draggingSmall_def pageFlat_def pageQuirks_def pageVisible_def
  pageDetached_def item0_def list0_def body0_def html0_def detached0_def detached1_def

lemma start_page0: "run page0 [DragState True] = dragging0"
  by (simp add: eval_defs)

subsection \<open>updatePointerY\<close>

lemma updatePointerY_Some:
  "containerRef s = Some el \<Longrightarrow>
   updatePointerY clientY s =
     s\<lparr>speedRef :=
         (if clientY - visibleTop s el < 100
          then - 15 * (1 - (clientY - visibleTop s el) / 100)\<^sup>2
          else if visibleBottom s el - clientY < 100
          then 15 * (1 - (visibleBottom s el - clientY) / 100)\<^sup>2
          else 0)\<rparr>"
  by (simp add: updatePointerY_def visibleTop_def visibleBottom_def Let_def power2_eq_square)

lemma updatePointerY_None: "containerRef s = None \<Longrightarrow> updatePointerY clientY s = s"
  by (simp add: updatePointerY_def)

lemma ratio_sq_le_one: "0 \<le> (d::real) \<Longrightarrow> d < 100 \<Longrightarrow> (1 - d / 100)\<^sup>2 \<le> 1"
proof -
  assume a: "0 \<le> d" "d < 100"
  have "0 \<le> 1 - d / 100" "1 - d / 100 \<le> 1" using a by simp_all
  then show ?thesis by (simp add: power_le_one)
qed

lemma ratio_sq_mono:
  "(a::real) < 100 \<Longrightarrow> b < a \<Longrightarrow> (1 - a / 100)\<^sup>2 \<le> (1 - b / 100)\<^sup>2"
proof -
  assume "a < 100" "b < a"
  then have "0 \<le> 1 - a / 100" "1 - a / 100 \<le> 1 - b / 100" by simp_all
  then show ?thesis by (rule power_mono[rotated])
qed

lemma updatePointerY_bounded:
  assumes "pointerWithin s (PointerY y)" and "\<bar>speedRef s\<bar> \<le> 15"
  shows "\<bar>speedRef (updatePointerY y s)\<bar> \<le> 15"
proof (cases "containerRef s")
  case None
  then show ?thesis using assms by (simp add: updatePointerY_None)
next
  case (Some el)
  from assms Some have b: "visibleTop s el \<le> y" "y \<le> visibleBottom s el" by simp_all
  show ?thesis
    using b ratio_sq_le_one[of "y - visibleTop s el"] ratio_sq_le_one[of "visibleBottom s el - y"]
    by (simp add: updatePointerY_Some[OF Some] abs_mult)
qed

subsection \<open>What each operation does to the speed\<close>

lemma speedRef_tick: "speedRef (tick s) = speedRef s"
  by (simp add: tick_def requestAnimationFrame_def Let_def split: option.splits)

lemma speedRef_fireFrame: "speedRef (fireFrame h s) = speedRef s"
  by (simp add: fireFrame_def speedRef_tick)

lemma speedRef_runCleanup: "speedRef (runCleanup s) = speedRef s"
  by (simp add: runCleanup_def cleanupBody_def cancelAnimationFrame_def Let_def
      split: option.splits)

lemma speedRef_effect: "speedRef (effect b s) = (if b then speedRef s else 0)"
  by (simp add: effect_def requestAnimationFrame_def cancelAnimationFrame_def Let_def
      split: option.splits)

lemma step_bounded:
  assumes "pointerWithin s e" and "\<bar>speedRef s\<bar> \<le> 15"
  shows "\<bar>speedRef (step s e)\<bar> \<le> 15"
proof (cases e)
  case (PointerY y)
  then show ?thesis using assms updatePointerY_bounded by simp
qed (use assms in \<open>simp_all add: onDragStateChange_def unmount_def speedRef_effect
       speedRef_runCleanup speedRef_fireFrame\<close>)

subsection \<open>The resolver along the ancestor chain\<close>

lemma find_scrollable:
  "\<not> isDocRoot s e \<Longrightarrow> scrollableY s e \<Longrightarrow> findScrollableAncestor s (Some e) = Some e"
  by (cases e) (auto simp: Let_def isDocRoot_def scrollableY_def)

lemma find_parent:
  "\<not> isDocRoot s e \<Longrightarrow> \<not> scrollableY s e \<Longrightarrow>
   findScrollableAncestor s (Some e) = findScrollableAncestor s (parentElement e)"
  by (cases e) (auto simp: Let_def isDocRoot_def scrollableY_def)

lemma find_chain:
  "findScrollableAncestor s el =
     (case find (\<lambda>e. isDocRoot s e \<or> scrollableY s e) (ancestorChain el) of
        None \<Rightarrow> scrollingElement s
      | Some e \<Rightarrow>
          if isDocRoot s e
          then (case scrollingElement s of Some se \<Rightarrow> Some se | None \<Rightarrow> Some e)
          else Some e)"
proof (induction el rule: ancestorChain.induct)
  case 1
  then show ?case by (simp split: option.splits)
next
  case (2 i p)
  then show ?case
    by (simp add: isDocRoot_def scrollableY_def Let_def split: option.splits)
qed

subsection \<open>The frame step\<close>

lemma tick_request:
  "rafRef (tick s) = Some (nextHandle s) \<and> frames (tick s) = insert (nextHandle s) (frames s)"
  by (simp add: tick_def requestAnimationFrame_def Let_def split: option.splits)

lemma tick_apply:
  "speedRef s \<noteq> 0 \<Longrightarrow> containerRef s = Some el \<Longrightarrow>
     scrollTop (tick s) = (scrollTop s)(el := scrollTop s el + speedRef s)
   \<and> onScrollCalls (tick s) =
       (case onScrollRef s of
          Some f \<Rightarrow> onScrollCalls s @ [(f, scrollTop s el + speedRef s)]
        | None \<Rightarrow> onScrollCalls s)"
  by (simp add: tick_def requestAnimationFrame_def Let_def split: option.splits)

lemma tick_skip:
  "speedRef s = 0 \<or> containerRef s = None \<Longrightarrow>
     scrollTop (tick s) = scrollTop s \<and> onScrollCalls (tick s) = onScrollCalls s"
  by (auto simp add: tick_def requestAnimationFrame_def Let_def split: option.splits)

subsection \<open>Stopping\<close>

lemma stop_state:
  "onDragStateChange False s =
     (runCleanup s)\<lparr>frames := (case rafRef (runCleanup s) of
                                 Some h \<Rightarrow> frames (runCleanup s) - {h}
                               | None \<Rightarrow> frames (runCleanup s)),
        rafRef := None, speedRef := 0, containerRef := None, cleanupFn := None\<rparr>"
  by (simp add: onDragStateChange_def effect_def cancelAnimationFrame_def Let_def
      split: option.splits)

lemma stop_refs:
  "rafRef (onDragStateChange False s) = None \<and> speedRef (onDragStateChange False s) = 0
   \<and> containerRef (onDragStateChange False s) = None
   \<and> cleanupFn (onDragStateChange False s) = None"
  by (simp add: stop_state)

lemma stop_idle: "idle (onDragStateChange False s)"
  by (simp add: idle_def stop_refs)

lemma mounted_idle: "mounted s \<Longrightarrow> idle s"
  by (simp add: mounted_def idle_def)

lemma stop_twice:
  "onDragStateChange False (onDragStateChange False s) = onDragStateChange False s"
proof -
  let ?t = "onDragStateChange False s"
  have r: "runCleanup ?t = ?t" using stop_refs[of s] by (simp add: runCleanup_def)
  show ?thesis
    using stop_refs[of s] by (simp add: stop_state[of ?t] r)
qed

lemma runCleanup_twice: "runCleanup (runCleanup s) = runCleanup s"
  by (simp add: runCleanup_def split: option.splits)

lemma runCleanup_tracked:
  "tracked s \<Longrightarrow> frames (runCleanup s) = {} \<and> wheelListeners (runCleanup s) = {}
     \<and> rafRef (runCleanup s) = None \<and> cleanupFn (runCleanup s) = None"
  by (auto simp add: tracked_def runCleanup_def cleanupBody_def cancelAnimationFrame_def Let_def
      split: option.splits)

lemma runCleanup_keeps:
  "speedRef (runCleanup s) = speedRef s \<and> containerRef (runCleanup s) = containerRef s"
  by (simp add: runCleanup_def cleanupBody_def cancelAnimationFrame_def Let_def
      split: option.splits)

lemma stop_tracked:
  "tracked s \<Longrightarrow>
   frames (onDragStateChange False s) = {} \<and> wheelListeners (onDragStateChange False s) = {}"
  using runCleanup_tracked[of s] by (simp add: stop_state)

subsection \<open>Every reachable state is tracked\<close>

lemma tracked_start:
  assumes "tracked s" shows "tracked (onDragStateChange True s)"
proof -
  let ?t = "runCleanup s"
  have c: "frames ?t = {}" "wheelListeners ?t = {}" "rafRef ?t = None" "cleanupFn ?t = None"
    using runCleanup_tracked[OF assms] by simp_all
  show ?thesis
    using c
    by (simp add: onDragStateChange_def effect_def tracked_def requestAnimationFrame_def Let_def
        split: option.splits)
qed

lemma tracked_stop:
  assumes "tracked s" shows "tracked (onDragStateChange False s)"
  using stop_tracked[OF assms] stop_refs[of s] by (simp add: tracked_def)

lemma tracked_fireFrame:
  assumes "tracked s" shows "tracked (fireFrame h s)"
proof (cases "h \<in> frames s")
  case False
  then show ?thesis using assms by (simp add: fireFrame_def)
next
  case True
  let ?t = "s\<lparr>frames := frames s - {h}\<rparr>"
  from True assms have r1: "rafRef s = Some h"
    by (cases "rafRef s") (auto simp: tracked_def)
  with assms have r: "frames s - {h} = {}" "cleanupFn s \<noteq> None"
    by (auto simp: tracked_def)
  have k: "cleanupFn (tick ?t) = cleanupFn s" "wheelListeners (tick ?t) = wheelListeners s"
    by (simp_all add: tick_def requestAnimationFrame_def Let_def split: option.splits)
  show ?thesis
    using True assms r1 r k tick_request[of ?t] by (auto simp add: fireFrame_def tracked_def)
qed

lemma tracked_updatePointerY: "tracked s \<Longrightarrow> tracked (updatePointerY y s)"
  by (cases "containerRef s") (simp_all add: updatePointerY_None updatePointerY_Some tracked_def)

lemma tracked_unmount: "tracked s \<Longrightarrow> tracked (unmount s)"
  using runCleanup_tracked[of s] by (simp add: unmount_def tracked_def)

lemma tracked_step: "tracked s \<Longrightarrow> tracked (step s e)"
proof (cases e)
  case (DragState b)
  assume "tracked s"
  then show ?thesis using DragState tracked_start tracked_stop by (cases b) simp_all
next
  case (Observer f)
  assume "tracked s"
  then show ?thesis using Observer by (simp add: tracked_def)
qed (simp_all add: tracked_fireFrame tracked_updatePointerY tracked_unmount)

lemma tracked_run: "tracked s \<Longrightarrow> tracked (run s evs)"
  unfolding run_def by (induction evs arbitrary: s) (simp_all add: tracked_step)

lemma mounted_tracked: "mounted s \<Longrightarrow> tracked s"
  by (simp add: mounted_def tracked_def)

lemma reachable_tracked: "mounted s \<Longrightarrow> tracked (run s evs)"
  by (simp add: mounted_tracked tracked_run)

section \<open>The claims\<close>

subsection \<open>C1: the speed computed from the pointer position\<close>

text \<open>
  Claim C1. For every call of \<^const>\<open>updatePointerY\<close> with an active scroll target whose
  visible bounds are \<open>[top, bottom]\<close>: with \<open>distFromTop = clientY - top\<close> and
  \<open>distFromBottom = bottom - clientY\<close>, the resulting speed is
  \<open>- 15 * (1 - distFromTop / 100)\<^sup>2\<close> if \<open>distFromTop < 100\<close>, otherwise
  \<open>15 * (1 - distFromBottom / 100)\<^sup>2\<close> if \<open>distFromBottom < 100\<close>, otherwise 0; nothing
  else of the state changes. The branches are tried in that order, so the top edge wins
  when both distances are below 100.
\<close>

theorem updatePointerY_speed:
  assumes "containerRef s = Some el"
  shows "updatePointerY clientY s =
           s\<lparr>speedRef :=
               (let distFromTop = clientY - visibleTop s el;
                    distFromBottom = visibleBottom s el - clientY
                in if distFromTop < 100 then - 15 * (1 - distFromTop / 100)\<^sup>2
                   else if distFromBottom < 100 then 15 * (1 - distFromBottom / 100)\<^sup>2
                   else 0)\<rparr>
         \<and> (clientY - visibleTop s el < 100 \<and> visibleBottom s el - clientY < 100 \<longrightarrow>
              speedRef (updatePointerY clientY s)
                = - 15 * (1 - (clientY - visibleTop s el) / 100)\<^sup>2)"
  using assms by (simp add: updatePointerY_Some Let_def)

theorem updatePointerY_speed_witness:
  "containerRef draggingSmall = Some list0
   \<and> 175 - visibleTop draggingSmall list0 < 100
   \<and> visibleBottom draggingSmall list0 - 175 < 100
   \<and> speedRef (updatePointerY 175 draggingSmall) = - 15 / 16
   \<and> updatePointerY 175 draggingSmall = draggingSmall\<lparr>speedRef := - 15 / 16\<rparr>"
  using updatePointerY_speed[of draggingSmall list0 175]
  by (simp add: draggingSmall_def dragging0_def page0_def visibleTop_def visibleBottom_def
      list0_def body0_def html0_def Let_def power2_eq_square)

subsection \<open>C2: the bound on the speed\<close>

text \<open>
  Claim C2, amended. After any sequence of operations (drag start, drag stop, pointer
  reports, frames, unmount) in which every pointer report lies within the visible bounds
  \<open>[top, bottom]\<close> of the scroll target active at that moment, the speed lies in
  \<open>[- 15, 15]\<close>, provided it did so before.
\<close>

theorem speed_bounded_within_bounds:
  assumes "\<bar>speedRef s\<bar> \<le> 15" and "pointersWithin s evs"
  shows "\<bar>speedRef (run s evs)\<bar> \<le> 15"
  using assms unfolding run_def
proof (induction evs arbitrary: s)
  case Nil
  then show ?case by simp
next
  case (Cons e es)
  then show ?case using step_bounded[of s e] by simp
qed

theorem speed_bounded_within_bounds_witness:
  "mounted page0
   \<and> \<bar>speedRef page0\<bar> \<le> 15
   \<and> pointersWithin page0 [DragState True, PointerY 100, Frame 1, PointerY 650]
   \<and> \<bar>speedRef (run page0 [DragState True, PointerY 100, Frame 1, PointerY 650])\<bar> \<le> 15"
proof -
  have m: "mounted page0" by (simp add: mounted_def page0_def)
  have a: "\<bar>speedRef page0\<bar> \<le> 15" by (simp add: page0_def)
  have b: "pointersWithin page0 [DragState True, PointerY 100, Frame 1, PointerY 650]"
    by (simp add: eval_defs)
  show ?thesis using m a b speed_bounded_within_bounds[OF a b] by simp
qed

text \<open>
  As stated, for arbitrary pointer positions, the claim fails: a pointer 100 pixels above
  the top of the list gives the ratio 2 and the speed \<open>- 60\<close>.
\<close>

theorem speed_bound_counterexample:
  "mounted page0
   \<and> speedRef (run page0 [DragState True, PointerY 0]) = - 60
   \<and> \<not> (- 15 \<le> speedRef (run page0 [DragState True, PointerY 0]))"
  by (simp add: mounted_def eval_defs)

subsection \<open>C3: when the resolver returns null\<close>

text \<open>
  Claim C3, amended. \<^const>\<open>findScrollableAncestor\<close> returns null exactly when the document
  has no scrolling element and the walk runs off the end of the ancestor chain, that is, no
  element of the chain is the body or the root element or a scrollable candidate. (When the
  walk reaches the body or the root element and the document has no scrolling element, the
  result is that element, not null.)
\<close>

theorem findScrollableAncestor_null_iff:
  "findScrollableAncestor s el = None \<longleftrightarrow>
     scrollingElement s = None
     \<and> (\<forall>e \<in> set (ancestorChain el). \<not> isDocRoot s e \<and> \<not> scrollableY s e)"
proof (induction el rule: ancestorChain.induct)
  case 1
  then show ?case by (simp split: option.splits)
next
  case (2 i p)
  then show ?case
    by (auto simp add: isDocRoot_def scrollableY_def Let_def split: option.splits)
qed

theorem findScrollableAncestor_null_iff_witness:
  "scrollingElement pageDetached = None
   \<and> ancestorChain (Some detached1) = [detached1, detached0]
   \<and> \<not> isDocRoot pageDetached detached1 \<and> \<not> scrollableY pageDetached detached1
   \<and> \<not> isDocRoot pageDetached detached0 \<and> \<not> scrollableY pageDetached detached0
   \<and> findScrollableAncestor pageDetached (Some detached1) = None"
  using findScrollableAncestor_null_iff[of pageDetached "Some detached1"]
  by (simp add: eval_defs)

text \<open>
  As stated the claim fails: on a page with no scrollable candidate and no scrolling
  element, the walk from the item reaches the body and returns it.
\<close>

theorem findScrollableAncestor_null_counterexample:
  "ancestorChain (Some item0) = [item0, list0, body0, html0]
   \<and> \<not> scrollableY pageFlat item0 \<and> \<not> scrollableY pageFlat list0
   \<and> \<not> scrollableY pageFlat body0 \<and> \<not> scrollableY pageFlat html0
   \<and> scrollingElement pageFlat = None
   \<and> findScrollableAncestor pageFlat (Some item0) = Some body0
   \<and> findScrollableAncestor pageFlat (Some item0) \<noteq> None"
  by (simp add: eval_defs)

subsection \<open>C4: what the resolver returns\<close>

text \<open>
  Claim C4, amended. For every starting element, \<^const>\<open>findScrollableAncestor\<close> stops at
  the first element of the chain, starting from the element itself, that is the body or the
  root element, or whose computed vertical overflow is \<open>auto\<close> or \<open>scroll\<close> and whose
  \<open>scrollHeight\<close> exceeds its \<open>clientHeight\<close>; it returns that element, with the body and
  the root element mapped to the scrolling element of the document when there is one, and to
  themselves when there is none. In particular, for a chain \<open>a\<close> (not scrollable), \<open>b\<close>
  (scrollable), body, the result from \<open>a\<close> is \<open>b\<close>; and for a chain with no scrollable
  ancestor the result is the scrolling element of the document, provided the document has
  one or the chain reaches neither the body nor the root element.
\<close>

theorem findScrollableAncestor_first_candidate:
  "findScrollableAncestor s el =
     (case find (\<lambda>e. isDocRoot s e \<or> scrollableY s e) (ancestorChain el) of
        None \<Rightarrow> scrollingElement s
      | Some e \<Rightarrow>
          if isDocRoot s e
          then (case scrollingElement s of Some se \<Rightarrow> Some se | None \<Rightarrow> Some e)
          else Some e)
   \<and> (\<not> isDocRoot s a \<and> \<not> scrollableY s a \<and> parentElement a = Some b
        \<and> \<not> isDocRoot s b \<and> scrollableY s b
      \<longrightarrow> findScrollableAncestor s (Some a) = Some b)
   \<and> ((\<forall>e \<in> set (ancestorChain el). \<not> scrollableY s e)
        \<and> (scrollingElement s = None \<longrightarrow> (\<forall>e \<in> set (ancestorChain el). \<not> isDocRoot s e))
      \<longrightarrow> findScrollableAncestor s el = scrollingElement s)"
proof (intro conjI impI)
  show "findScrollableAncestor s el =
     (case find (\<lambda>e. isDocRoot s e \<or> scrollableY s e) (ancestorChain el) of
        None \<Rightarrow> scrollingElement s
      | Some e \<Rightarrow>
          if isDocRoot s e
          then (case scrollingElement s of Some se \<Rightarrow> Some se | None \<Rightarrow> Some e)
          else Some e)"
    by (rule find_chain)
next
  assume "\<not> isDocRoot s a \<and> \<not> scrollableY s a \<and> parentElement a = Some b
        \<and> \<not> isDocRoot s b \<and> scrollableY s b"
  then show "findScrollableAncestor s (Some a) = Some b"
    by (simp add: find_parent find_scrollable)
next
  assume a: "(\<forall>e \<in> set (ancestorChain el). \<not> scrollableY s e)
        \<and> (scrollingElement s = None \<longrightarrow> (\<forall>e \<in> set (ancestorChain el). \<not> isDocRoot s e))"
  show "findScrollableAncestor s el = scrollingElement s"
  proof (cases "find (\<lambda>e. isDocRoot s e \<or> scrollableY s e) (ancestorChain el)")
    case None
    then show ?thesis by (simp add: find_chain)
  next
    case (Some e)
    then have "e \<in> set (ancestorChain el)" "isDocRoot s e \<or> scrollableY s e"
      by (auto simp: find_Some_iff)
    with a Some show ?thesis by (auto simp: find_chain split: option.splits)
  qed
qed

theorem findScrollableAncestor_first_candidate_witness:
  "\<not> isDocRoot page0 item0 \<and> \<not> scrollableY page0 item0 \<and> parentElement item0 = Some list0
   \<and> \<not> isDocRoot page0 list0 \<and> scrollableY page0 list0
   \<and> parentElement list0 = Some body0 \<and> body page0 = body0
   \<and> findScrollableAncestor page0 (Some item0) = Some list0
   \<and> ancestorChain (Some item0) = [item0, list0, body0, html0]
   \<and> \<not> scrollableY pageVisible item0 \<and> \<not> scrollableY pageVisible list0
   \<and> \<not> scrollableY pageVisible body0 \<and> \<not> scrollableY pageVisible html0
   \<and> scrollingElement pageVisible = Some html0
   \<and> findScrollableAncestor pageVisible (Some item0) = scrollingElement pageVisible"
  using findScrollableAncestor_first_candidate[of page0 "Some item0" item0 list0]
    findScrollableAncestor_first_candidate[of pageVisible "Some item0" item0 list0]
  by (simp add: eval_defs)

text \<open>
  As stated the claim fails where the document has no scrolling element: on the quirks-mode
  page the walk from the list stops at the scrollable body and returns the body itself.
\<close>

theorem findScrollableAncestor_root_counterexample:
  "ancestorChain (Some list0) = [list0, body0, html0]
   \<and> \<not> scrollableY pageQuirks list0 \<and> scrollableY pageQuirks body0
   \<and> body pageQuirks = body0
   \<and> scrollingElement pageQuirks = None
   \<and> findScrollableAncestor pageQuirks (Some list0) = Some body0
   \<and> findScrollableAncestor pageQuirks (Some list0) \<noteq> scrollingElement pageQuirks"
  by (simp add: eval_defs)

subsection \<open>C5: the dead zone\<close>

text \<open>
  Claim C5. For every \<open>clientY\<close> strictly between \<open>top + 100\<close> and \<open>bottom - 100\<close>, where
  \<open>[top, bottom]\<close> are the visible bounds of the active target, \<^const>\<open>updatePointerY\<close> sets
  the speed to exactly 0.
\<close>

theorem updatePointerY_dead_zone:
  assumes "containerRef s = Some el"
    and "visibleTop s el + 100 < clientY" and "clientY < visibleBottom s el - 100"
  shows "speedRef (updatePointerY clientY s) = 0"
  using assms by (simp add: updatePointerY_Some)

theorem updatePointerY_dead_zone_witness:
  "containerRef (updatePointerY 100 dragging0) = Some list0
   \<and> speedRef (updatePointerY 100 dragging0) = - 15
   \<and> visibleTop (updatePointerY 100 dragging0) list0 + 100 < 400
   \<and> 400 < visibleBottom (updatePointerY 100 dragging0) list0 - 100
   \<and> speedRef (updatePointerY 400 (updatePointerY 100 dragging0)) = 0"
  using updatePointerY_dead_zone[of "updatePointerY 100 dragging0" list0 400]
  by (simp add: eval_defs)

subsection \<open>C6: monotonicity of the easing\<close>

text \<open>
  Claim C6, amended. For two pointer positions against the same active target: if the first
  position takes the top-edge branch (\<open>distFromTop < 100\<close>) and the second has a strictly
  smaller \<open>distFromTop\<close>, or the first takes the bottom-edge branch (\<open>distFromTop \<ge> 100\<close> and
  \<open>distFromBottom < 100\<close>) and the second has a strictly smaller \<open>distFromBottom\<close>, then the
  absolute value of the speed computed for the second position is at least that computed
  for the first.
\<close>

theorem speed_monotone_in_zone:
  assumes "containerRef s = Some el"
  shows "(y1 - visibleTop s el < 100 \<and> y2 - visibleTop s el < y1 - visibleTop s el
            \<longrightarrow> \<bar>speedRef (updatePointerY y1 s)\<bar> \<le> \<bar>speedRef (updatePointerY y2 s)\<bar>)
       \<and> (\<not> y1 - visibleTop s el < 100 \<and> visibleBottom s el - y1 < 100
            \<and> visibleBottom s el - y2 < visibleBottom s el - y1
            \<longrightarrow> \<bar>speedRef (updatePointerY y1 s)\<bar> \<le> \<bar>speedRef (updatePointerY y2 s)\<bar>)"
  using ratio_sq_mono[of "y1 - visibleTop s el" "y2 - visibleTop s el"]
    ratio_sq_mono[of "visibleBottom s el - y1" "visibleBottom s el - y2"]
  by (auto simp add: updatePointerY_Some[OF assms] abs_mult)

theorem speed_monotone_in_zone_witness:
  "containerRef dragging0 = Some list0
   \<and> 180 - visibleTop dragging0 list0 < 100
   \<and> 120 - visibleTop dragging0 list0 < 180 - visibleTop dragging0 list0
   \<and> \<bar>speedRef (updatePointerY 180 dragging0)\<bar> \<le> \<bar>speedRef (updatePointerY 120 dragging0)\<bar>
   \<and> \<not> 620 - visibleTop dragging0 list0 < 100
   \<and> visibleBottom dragging0 list0 - 620 < 100
   \<and> visibleBottom dragging0 list0 - 680 < visibleBottom dragging0 list0 - 620
   \<and> \<bar>speedRef (updatePointerY 620 dragging0)\<bar> \<le> \<bar>speedRef (updatePointerY 680 dragging0)\<bar>"
proof -
  have b: "containerRef dragging0 = Some list0" "visibleTop dragging0 list0 = 100"
    "visibleBottom dragging0 list0 = 700"
    by (simp_all add: eval_defs)
  show ?thesis
    using speed_monotone_in_zone[OF b(1), of 180 120] speed_monotone_in_zone[OF b(1), of 620 680]
    by (simp add: b)
qed

text \<open>
  As stated the claim fails: moving from the bottom zone up into the dead zone makes
  \<open>distFromTop\<close> smaller and the speed drop to 0; and over a list only 150 pixels high,
  where the top branch wins, moving towards the bottom edge makes the speed smaller.
\<close>

theorem speed_monotone_counterexample:
  "containerRef dragging0 = Some list0
   \<and> 400 - visibleTop dragging0 list0 < 650 - visibleTop dragging0 list0
   \<and> speedRef (updatePointerY 650 dragging0) = 15 / 4
   \<and> speedRef (updatePointerY 400 dragging0) = 0
   \<and> \<not> \<bar>speedRef (updatePointerY 650 dragging0)\<bar> \<le> \<bar>speedRef (updatePointerY 400 dragging0)\<bar>
   \<and> containerRef draggingSmall = Some list0
   \<and> visibleBottom draggingSmall list0 - 195 < visibleBottom draggingSmall list0 - 175
   \<and> speedRef (updatePointerY 175 draggingSmall) = - 15 / 16
   \<and> speedRef (updatePointerY 195 draggingSmall) = - 3 / 80
   \<and> \<not> \<bar>speedRef (updatePointerY 175 draggingSmall)\<bar> \<le> \<bar>speedRef (updatePointerY 195 draggingSmall)\<bar>"
  by (simp add: eval_defs)

subsection \<open>C7: stopping twice\<close>

text \<open>
  Claim C7, amended. Drag stop (the effect running with \<open>isDragging\<close> false) is idempotent:
  applied twice it yields the same state as applied once, with a null frame handle, speed 0
  and no stored scroll target. Teardown (the cleanup run at unmount) is idempotent too, and
  leaves the speed and the stored scroll target as they were. In every state the hook can
  reach, both leave no scheduled frame and no wheel listener installed.
\<close>

theorem stop_idempotent:
  "onDragStateChange False (onDragStateChange False s) = onDragStateChange False s
   \<and> rafRef (onDragStateChange False s) = None
   \<and> speedRef (onDragStateChange False s) = 0
   \<and> containerRef (onDragStateChange False s) = None
   \<and> unmount (unmount s) = unmount s
   \<and> speedRef (unmount s) = speedRef s
   \<and> containerRef (unmount s) = containerRef s
   \<and> (tracked s \<longrightarrow>
        frames (onDragStateChange False s) = {} \<and> wheelListeners (onDragStateChange False s) = {}
      \<and> rafRef (unmount s) = None \<and> frames (unmount s) = {} \<and> wheelListeners (unmount s) = {})"
  using stop_twice[of s] stop_refs[of s] runCleanup_twice[of s] runCleanup_keeps[of s]
    stop_tracked[of s] runCleanup_tracked[of s]
  by (simp add: unmount_def)

theorem stop_idempotent_witness:
  "run page0 [DragState True, PointerY 100] = dragging0\<lparr>speedRef := - 15\<rparr>
   \<and> frames (dragging0\<lparr>speedRef := - 15\<rparr>) = {1}
   \<and> wheelListeners (dragging0\<lparr>speedRef := - 15\<rparr>) = {0}
   \<and> onDragStateChange False (onDragStateChange False (dragging0\<lparr>speedRef := - 15\<rparr>))
       = onDragStateChange False (dragging0\<lparr>speedRef := - 15\<rparr>)
   \<and> rafRef (onDragStateChange False (dragging0\<lparr>speedRef := - 15\<rparr>)) = None
   \<and> speedRef (onDragStateChange False (dragging0\<lparr>speedRef := - 15\<rparr>)) = 0
   \<and> containerRef (onDragStateChange False (dragging0\<lparr>speedRef := - 15\<rparr>)) = None
   \<and> frames (onDragStateChange False (dragging0\<lparr>speedRef := - 15\<rparr>)) = {}
   \<and> wheelListeners (onDragStateChange False (dragging0\<lparr>speedRef := - 15\<rparr>)) = {}
   \<and> unmount (unmount (dragging0\<lparr>speedRef := - 15\<rparr>)) = unmount (dragging0\<lparr>speedRef := - 15\<rparr>)
   \<and> rafRef (unmount (dragging0\<lparr>speedRef := - 15\<rparr>)) = None
   \<and> frames (unmount (dragging0\<lparr>speedRef := - 15\<rparr>)) = {}
   \<and> wheelListeners (unmount (dragging0\<lparr>speedRef := - 15\<rparr>)) = {}"
proof -
  let ?s = "dragging0\<lparr>speedRef := - 15\<rparr>"
  have r: "run page0 [DragState True, PointerY 100] = ?s"
    by (simp add: eval_defs)
  have f: "frames ?s = {1}" "wheelListeners ?s = {0}"
    by (simp_all add: dragging0_def)
  have t: "tracked ?s"
    by (simp add: tracked_def dragging0_def)
  show ?thesis
    using r f t stop_idempotent[of ?s] by simp
qed

text \<open>
  As stated, with teardown counted as a stop, the claim fails: unmounting in the middle of
  a drag cancels the frame and removes the wheel listener, but the speed stays \<open>- 15\<close> and
  the scroll target stays stored.
\<close>

theorem teardown_keeps_speed_counterexample:
  "rafRef (run page0 [DragState True, PointerY 100, Unmount]) = None
   \<and> speedRef (run page0 [DragState True, PointerY 100, Unmount]) = - 15
   \<and> speedRef (run page0 [DragState True, PointerY 100, Unmount]) \<noteq> 0
   \<and> containerRef (run page0 [DragState True, PointerY 100, Unmount]) = Some list0"
  by (simp add: eval_defs)

subsection \<open>C8: the frame step\<close>

text \<open>
  Claim C8. When a scheduled frame runs: if the speed is not 0 and a scroll target is set,
  the scroll offset of the target is increased by the speed (no other element's offset
  changes) and the observer callback, when present, is called once with the new scroll
  offset; and in every case, also at speed 0, the frame step schedules itself again and
  stores the new handle.
\<close>

theorem frame_step_applies_speed:
  assumes "h \<in> frames s"
  shows "(speedRef s \<noteq> 0 \<and> containerRef s = Some el \<longrightarrow>
            scrollTop (fireFrame h s) el = scrollTop s el + speedRef s
          \<and> (\<forall>e. e \<noteq> el \<longrightarrow> scrollTop (fireFrame h s) e = scrollTop s e)
          \<and> (\<forall>f. onScrollRef s = Some f \<longrightarrow>
                onScrollCalls (fireFrame h s)
                  = onScrollCalls s @ [(f, scrollTop (fireFrame h s) el)])
          \<and> (onScrollRef s = None \<longrightarrow> onScrollCalls (fireFrame h s) = onScrollCalls s))
       \<and> rafRef (fireFrame h s) = Some (nextHandle s)
       \<and> nextHandle s \<in> frames (fireFrame h s)"
  using assms tick_request[of "s\<lparr>frames := frames s - {h}\<rparr>"]
    tick_apply[of "s\<lparr>frames := frames s - {h}\<rparr>" el]
  by (auto simp add: fireFrame_def)

theorem frame_step_applies_speed_witness:
  "1 \<in> frames (dragging0\<lparr>speedRef := - 15\<rparr>)
   \<and> speedRef (dragging0\<lparr>speedRef := - 15\<rparr>) = - 15
   \<and> containerRef (dragging0\<lparr>speedRef := - 15\<rparr>) = Some list0
   \<and> onScrollRef (dragging0\<lparr>speedRef := - 15\<rparr>) = Some 7
   \<and> scrollTop (dragging0\<lparr>speedRef := - 15\<rparr>) list0 = 300
   \<and> scrollTop (fireFrame 1 (dragging0\<lparr>speedRef := - 15\<rparr>)) list0 = 285
   \<and> onScrollCalls (fireFrame 1 (dragging0\<lparr>speedRef := - 15\<rparr>)) = [(7, 285)]
   \<and> rafRef (fireFrame 1 (dragging0\<lparr>speedRef := - 15\<rparr>)) = Some 2
   \<and> 2 \<in> frames (fireFrame 1 (dragging0\<lparr>speedRef := - 15\<rparr>))
   \<and> 1 \<in> frames dragging0 \<and> speedRef dragging0 = 0
   \<and> rafRef (fireFrame 1 dragging0) = Some 2
   \<and> 2 \<in> frames (fireFrame 1 dragging0)"
proof -
  let ?s = "dragging0\<lparr>speedRef := - 15\<rparr>"
  have a: "1 \<in> frames ?s" "speedRef ?s = - 15" "containerRef ?s = Some list0"
    "onScrollRef ?s = Some 7" "scrollTop ?s list0 = 300" "onScrollCalls ?s = []"
    "nextHandle ?s = 2"
    by (simp_all add: dragging0_def page0_def)
  have b: "1 \<in> frames dragging0" "speedRef dragging0 = 0" "nextHandle dragging0 = 2"
    by (simp_all add: dragging0_def page0_def)
  show ?thesis
    using a b frame_step_applies_speed[OF a(1), of list0]
      frame_step_applies_speed[OF b(1), of list0]
    by simp
qed

subsection \<open>C9: a drag that finds no scroll target\<close>

text \<open>
  Claim C9. If a drag starts while the hook is idle (after mount, or after the effect ran
  with \<open>isDragging\<close> false) and the resolution of the scroll target returns null, the start
  changes nothing: no frame is requested, the frame handle stays null, no wheel listener is
  installed, no cleanup is pending, and a following \<^const>\<open>updatePointerY\<close> with any
  \<open>clientY\<close> changes nothing either, so the speed stays as it was.
\<close>

theorem failed_start_noop:
  assumes "idle s" and "findScrollableAncestor s (contentElement s) = None"
  shows "onDragStateChange True s = s
       \<and> rafRef (onDragStateChange True s) = None
       \<and> frames (onDragStateChange True s) = frames s
       \<and> wheelListeners (onDragStateChange True s) = wheelListeners s
       \<and> cleanupFn (onDragStateChange True s) = None
       \<and> updatePointerY clientY (onDragStateChange True s) = onDragStateChange True s
       \<and> speedRef (updatePointerY clientY (onDragStateChange True s)) = speedRef s"
proof -
  have "onDragStateChange True s = s"
    using assms by (simp add: idle_def onDragStateChange_def runCleanup_def effect_def)
  then show ?thesis
    using assms by (simp add: idle_def updatePointerY_None)
qed

theorem failed_start_noop_witness:
  "mounted pageDetached
   \<and> idle pageDetached
   \<and> findScrollableAncestor pageDetached (contentElement pageDetached) = None
   \<and> run pageDetached [DragState True, PointerY 5] = pageDetached
   \<and> frames (onDragStateChange True pageDetached) = {}
   \<and> wheelListeners (onDragStateChange True pageDetached) = {}
   \<and> rafRef (onDragStateChange True pageDetached) = None
   \<and> speedRef (updatePointerY 5 (onDragStateChange True pageDetached)) = 0"
proof -
  have m: "mounted pageDetached"
    by (simp add: mounted_def pageDetached_def page0_def)
  have i: "idle pageDetached"
    by (simp add: idle_def pageDetached_def page0_def)
  have n: "findScrollableAncestor pageDetached (contentElement pageDetached) = None"
    by (simp add: eval_defs)
  have z: "frames pageDetached = {}" "wheelListeners pageDetached = {}" "speedRef pageDetached = 0"
    by (simp_all add: pageDetached_def page0_def)
  show ?thesis
    using m i n z failed_start_noop[OF i n, of 5] by (auto simp add: run_def)
qed

subsection \<open>C10: a frame step that applies nothing\<close>

text \<open>
  Claim C10. On a frame step where the speed is 0 or no scroll target is set, the scroll
  offset of every element is unchanged and no observer call is made; and a frame step makes
  an observer call if and only if the speed is not 0, a scroll target is set, and an
  observer is present.
\<close>

theorem frame_step_idle_unchanged:
  "(speedRef s = 0 \<or> containerRef s = None \<longrightarrow>
      scrollTop (tick s) = scrollTop s \<and> onScrollCalls (tick s) = onScrollCalls s
    \<and> scrollTop (fireFrame h s) = scrollTop s \<and> onScrollCalls (fireFrame h s) = onScrollCalls s)
   \<and> (onScrollCalls (tick s) \<noteq> onScrollCalls s
        \<longleftrightarrow> speedRef s \<noteq> 0 \<and> containerRef s \<noteq> None \<and> onScrollRef s \<noteq> None)"
proof (intro conjI impI)
  assume a: "speedRef s = 0 \<or> containerRef s = None"
  show "scrollTop (tick s) = scrollTop s" using a tick_skip by simp
  show "onScrollCalls (tick s) = onScrollCalls s" using a tick_skip by simp
  show "scrollTop (fireFrame h s) = scrollTop s"
    using a tick_skip[of "s\<lparr>frames := frames s - {h}\<rparr>"] by (simp add: fireFrame_def)
  show "onScrollCalls (fireFrame h s) = onScrollCalls s"
    using a tick_skip[of "s\<lparr>frames := frames s - {h}\<rparr>"] by (simp add: fireFrame_def)
next
  show "onScrollCalls (tick s) \<noteq> onScrollCalls s
        \<longleftrightarrow> speedRef s \<noteq> 0 \<and> containerRef s \<noteq> None \<and> onScrollRef s \<noteq> None"
  proof (cases "speedRef s = 0 \<or> containerRef s = None")
    case True
    then show ?thesis using tick_skip[of s] by auto
  next
    case False
    then obtain el where "speedRef s \<noteq> 0" "containerRef s = Some el" by auto
    then show ?thesis using tick_apply[of s el] by (auto split: option.splits)
  qed
qed

theorem frame_step_idle_unchanged_witness:
  "speedRef dragging0 = 0
   \<and> containerRef dragging0 = Some list0
   \<and> 1 \<in> frames dragging0
   \<and> scrollTop (fireFrame 1 dragging0) = scrollTop dragging0
   \<and> onScrollCalls (fireFrame 1 dragging0) = onScrollCalls dragging0
   \<and> onScrollCalls (tick dragging0) = onScrollCalls dragging0
   \<and> speedRef (dragging0\<lparr>speedRef := - 15\<rparr>) \<noteq> 0
   \<and> onScrollRef (dragging0\<lparr>speedRef := - 15\<rparr>) = Some 7
   \<and> onScrollCalls (tick (dragging0\<lparr>speedRef := - 15\<rparr>)) \<noteq> onScrollCalls (dragging0\<lparr>speedRef := - 15\<rparr>)"
proof -
  let ?s = "dragging0\<lparr>speedRef := - 15\<rparr>"
  have a: "speedRef dragging0 = 0" "containerRef dragging0 = Some list0" "1 \<in> frames dragging0"
    by (simp_all add: dragging0_def page0_def)
  have b: "speedRef ?s \<noteq> 0" "onScrollRef ?s = Some 7" "containerRef ?s \<noteq> None"
    by (simp_all add: dragging0_def page0_def)
  show ?thesis
    using a b frame_step_idle_unchanged[of dragging0 1] frame_step_idle_unchanged[of ?s 1]
    by simp
qed

end
